theory Spec2Isabelle
  imports Complex_Main
begin

section \<open>Strings\<close>

text \<open>
  A Python \<open>str\<close> is a sequence of code points. The model covers the code points
  0 to 255 (ASCII and Latin-1): a \<^typ>\<open>char\<close> stands for the code point with the
  same number. The three character classes below are the ones of CPython 3 on that range:
  \<open>str.isspace\<close> (used by \<open>str.split()\<close>, \<open>str.strip()\<close> and by \<open>\s\<close> in a \<open>str\<close>
  pattern), \<open>\w\<close> (alphanumeric or underscore) and the one-to-one \<open>str.lower()\<close>
  mapping.
\<close>

definition is_space :: "char \<Rightarrow> bool" where
  "is_space c =
     (let n = (of_char c :: nat)
      in (9 \<le> n \<and> n \<le> 13) \<or> (28 \<le> n \<and> n \<le> 32) \<or> n = 133 \<or> n = 160)"

definition is_word :: "char \<Rightarrow> bool" where
  "is_word c =
     (let n = (of_char c :: nat)
      in (48 \<le> n \<and> n \<le> 57) \<or> (65 \<le> n \<and> n \<le> 90) \<or> n = 95 \<or> (97 \<le> n \<and> n \<le> 122)
         \<or> n = 170 \<or> n = 178 \<or> n = 179 \<or> n = 181 \<or> n = 185 \<or> n = 186
         \<or> (188 \<le> n \<and> n \<le> 190) \<or> (192 \<le> n \<and> n \<le> 214)
         \<or> (216 \<le> n \<and> n \<le> 246) \<or> 248 \<le> n)"

definition lower_char :: "char \<Rightarrow> char" where
  "lower_char c =
     (let n = (of_char c :: nat)
      in if (65 \<le> n \<and> n \<le> 90) \<or> (192 \<le> n \<and> n \<le> 214) \<or> (216 \<le> n \<and> n \<le> 222)
         then char_of (n + 32) else c)"

text \<open>\<open>text.lower()\<close>\<close>

definition str_lower :: "string \<Rightarrow> string" where
  "str_lower text = map lower_char text"

text \<open>\<open>re.sub(r"[^\w\s']", "", text)\<close>: every character that is neither a word
  character, nor whitespace, nor an apostrophe is deleted.\<close>

definition re_sub_punct :: "string \<Rightarrow> string" where
  "re_sub_punct text = filter (\<lambda>c. is_word c \<or> is_space c \<or> c = CHR 0x27) text"

text \<open>\<open>text.split()\<close>: the maximal runs of non-whitespace characters, in order.\<close>

function str_split :: "string \<Rightarrow> string list" where
  "str_split [] = []"
| "str_split (c # cs) =
     (if is_space c then str_split cs
      else (c # takeWhile (\<lambda>d. \<not> is_space d) cs)
             # str_split (dropWhile (\<lambda>d. \<not> is_space d) cs))"
  by pat_completeness auto
termination
  by (relation "measure length") (auto simp: le_imp_less_Suc length_dropWhile_le)

text \<open>\<open>" ".join(words)\<close>\<close>

fun str_join :: "string list \<Rightarrow> string" where
  "str_join [] = []"
| "str_join [w] = w"
| "str_join (w # v # ws) = w @ CHR '' '' # str_join (v # ws)"

text \<open>\<open>s.strip()\<close>: leading and trailing whitespace removed.\<close>

definition str_strip :: "string \<Rightarrow> string" where
  "str_strip s = rev (dropWhile is_space (rev (dropWhile is_space s)))"

section \<open>Text normalizer\<close>

definition normalize_text :: "string \<Rightarrow> string" where
  "normalize_text text = str_join (str_split (re_sub_punct (str_lower text)))"

text \<open>
  The normalizer as the specification words it: punctuation is stripped, and an
  apostrophe survives only inside a word-internal contraction, that is with a word
  character immediately before and immediately after it. \<open>prev\<close> is the character
  to the left of the one being examined.
\<close>

fun spec_strip_punct :: "char option \<Rightarrow> string \<Rightarrow> string" where
  "spec_strip_punct prev [] = []"
| "spec_strip_punct prev (c # cs) =
     (if is_word c \<or> is_space c
         \<or> (c = CHR 0x27
             \<and> (case prev of None \<Rightarrow> False | Some p \<Rightarrow> is_word p)
             \<and> (case cs of [] \<Rightarrow> False | d # _ \<Rightarrow> is_word d))
      then c # spec_strip_punct (Some c) cs
      else spec_strip_punct (Some c) cs)"

definition spec_normalize_text :: "string \<Rightarrow> string" where
  "spec_normalize_text text =
     str_join (str_split (spec_strip_punct None (str_lower text)))"

section \<open>Errors\<close>

text \<open>
  Every exception the evaluator can raise is a value. \<open>OSError\<close> stands for a failing
  \<open>open\<close> (the file is absent, a directory, unreadable) and carries the path;
  \<open>TranscriptionFailed\<close> is the exception of \<open>transcribe_audio\<close>, whose message
  interpolates the status code and the response text; \<open>RequestError\<close> is anything
  raised while the audio file is opened and posted; \<open>EmptyReference\<close> is the metric
  library refusing an empty reference.
\<close>

datatype error =
    ValueError string
  | OSError string
  | JSONDecodeError
  | RequestError
  | TranscriptionFailed int string
  | EmptyReference

section \<open>Metric engine\<close>

text \<open>
  Modelled from the spec: the functions \<open>wer\<close> and \<open>cer\<close> of the third-party metric
  library, which the evaluator imports and whose code is not part of the repository.
  The specification gives the rate as (substitutions + insertions + deletions) divided
  by the length of the reference, over a minimum edit-distance alignment with unit
  costs, on whitespace-delimited tokens for the word rate and on characters for the
  character rate, and treats an empty reference as an error. Rates are exact rationals;
  the rounding of Python's floats is not modelled.
\<close>

fun edit_distance :: "'a list \<Rightarrow> 'a list \<Rightarrow> nat" where
  "edit_distance [] ys = length ys"
| "edit_distance (x # xs) [] = Suc (length xs)"
| "edit_distance (x # xs) (y # ys) =
     min (min (Suc (edit_distance xs (y # ys))) (Suc (edit_distance (x # xs) ys)))
         (edit_distance xs ys + (if x = y then 0 else 1))"

definition error_rate :: "'a list \<Rightarrow> 'a list \<Rightarrow> error + rat" where
  "error_rate reference hypothesis =
     (if reference = [] then Inl EmptyReference
      else Inr (of_nat (edit_distance reference hypothesis) / of_nat (length reference)))"

definition wer :: "string \<Rightarrow> string \<Rightarrow> error + rat" where
  "wer reference hypothesis = error_rate (str_split reference) (str_split hypothesis)"

definition cer :: "string \<Rightarrow> string \<Rightarrow> error + rat" where
  "cer reference hypothesis = error_rate reference hypothesis"

record metrics =
  m_wer :: rat
  m_cer :: rat
  m_reference_words :: nat
  m_hypothesis_words :: nat

definition calculate_metrics :: "string \<Rightarrow> string \<Rightarrow> error + metrics" where
  "calculate_metrics reference hypothesis =
     (let ref_norm = normalize_text reference;
          hyp_norm = normalize_text hypothesis
      in case wer ref_norm hyp_norm of
           Inl e \<Rightarrow> Inl e
         | Inr w \<Rightarrow>
             (case cer ref_norm hyp_norm of
                Inl e \<Rightarrow> Inl e
              | Inr c \<Rightarrow>
                  Inr \<lparr>m_wer = w, m_cer = c,
                       m_reference_words = length (str_split ref_norm),
                       m_hypothesis_words = length (str_split hyp_norm)\<rparr>))"

section \<open>The world the evaluator runs in\<close>

text \<open>
  A metadata record is the dictionary parsed from one line of \<open>metadata.jsonl\<close>; the
  evaluator reads every key with \<open>record.get(key, default)\<close>, so each field may be
  absent. The \<open>annotations\<close> object is an association list of its keys and values.
\<close>

record metadata =
  md_id :: "string option"
  md_audio :: "string option"
  md_sample_file :: "string option"
  md_sample :: "string option"
  md_annotations :: "(string \<times> string) list option"
  md_duration_seconds :: "rat option"

text \<open>A line of the metadata file: blank, a JSON object, or text that \<open>json.loads\<close>
  rejects.\<close>

datatype jsonl_line = Blank | Json metadata | Malformed

text \<open>The body of a response as \<open>response.json()\<close> followed by
  \<open>result.get("text", "")\<close> sees it.\<close>

datatype json_body = Not_json | Json_without_text | Json_text string

record http_response =
  status_code :: int
  response_text :: string
  response_json :: json_body

datatype http_outcome = Request_failed | Response http_response

text \<open>
  The file system, the environment variables and the transcription service are a
  snapshot that does not change during the run: \<open>environ\<close> is \<open>os.environ\<close> as line 22
  reads it (after \<open>load_dotenv()\<close>), \<open>metadata_file\<close> the lines of
  \<open>dataset/metadata.jsonl\<close> (\<open>None\<close> when it cannot be opened), \<open>sample_files\<close> the
  content of the file of that name under \<open>samples/\<close> (\<open>None\<close> when \<open>open\<close> fails),
  \<open>audio_exists\<close> the answer of \<open>(DATASET_DIR / path).exists()\<close>, and \<open>api\<close> what
  posting the audio file at a path to the service yields.
\<close>

record world =
  environ :: "string \<rightharpoonup> string"
  metadata_file :: "jsonl_line list option"
  sample_files :: "string \<rightharpoonup> string"
  audio_exists :: "string \<Rightarrow> bool"
  api :: "string \<Rightarrow> http_outcome"

section \<open>Loading\<close>

definition load_ground_truth :: "world \<Rightarrow> string \<Rightarrow> error + string" where
  "load_ground_truth w file =
     (case sample_files w file of
        None \<Rightarrow> Inl (OSError file)
      | Some content \<Rightarrow> Inr (str_strip content))"

fun read_lines :: "metadata list \<Rightarrow> jsonl_line list \<Rightarrow> error + metadata list" where
  "read_lines records [] = Inr records"
| "read_lines records (Blank # ls) = read_lines records ls"
| "read_lines records (Json r # ls) = read_lines (records @ [r]) ls"
| "read_lines records (Malformed # ls) = Inl JSONDecodeError"

definition load_metadata :: "world \<Rightarrow> error + metadata list" where
  "load_metadata w =
     (case metadata_file w of
        None \<Rightarrow> Inl (OSError ''dataset/metadata.jsonl'')
      | Some ls \<Rightarrow> read_lines [] ls)"

section \<open>Transcription client\<close>

definition transcribe_audio :: "world \<Rightarrow> string \<Rightarrow> error + string" where
  "transcribe_audio w audio_path =
     (case api w audio_path of
        Request_failed \<Rightarrow> Inl RequestError
      | Response response \<Rightarrow>
          if status_code response = 200
          then (case response_json response of
                  Not_json \<Rightarrow> Inl JSONDecodeError
                | Json_without_text \<Rightarrow> Inr []
                | Json_text t \<Rightarrow> Inr t)
          else Inl (TranscriptionFailed (status_code response) (response_text response)))"

section \<open>Batch runner\<close>

record eval_result =
  r_id :: string
  r_sample :: string
  r_sample_file :: string
  r_annotations :: "(string \<times> string) list"
  r_duration_seconds :: rat
  r_transcription :: string
  r_reference :: string
  r_metrics :: metrics

definition record_id :: "metadata \<Rightarrow> string" where
  "record_id record = (case md_id record of None \<Rightarrow> ''unknown'' | Some i \<Rightarrow> i)"

definition audio_rel_path :: "metadata \<Rightarrow> string" where
  "audio_rel_path record =
     (case md_audio record of
        None \<Rightarrow> ''audio/'' @ record_id record @ ''.wav''
      | Some a \<Rightarrow> a)"

definition sample_file :: "metadata \<Rightarrow> string" where
  "sample_file record = (case md_sample_file record of None \<Rightarrow> [] | Some f \<Rightarrow> f)"

text \<open>
  One iteration of the loop of \<open>run_evaluation\<close> (lines 112 to 150), on the cache
  \<open>ground_truths\<close>. It yields the cache as the iteration leaves it together with the
  result it appends, \<open>None\<close> when the iteration ends in \<open>continue\<close>; an exception that
  leaves the loop body is \<open>Inl\<close>. The calls of \<open>load_ground_truth\<close> and
  \<open>calculate_metrics\<close> stand outside the \<open>try\<close>, the call of \<open>transcribe_audio\<close> inside
  it. Console output is not modelled here.
\<close>

definition loop_body ::
  "world \<Rightarrow> (string \<rightharpoonup> string) \<Rightarrow> metadata
     \<Rightarrow> error + ((string \<rightharpoonup> string) \<times> eval_result option)" where
  "loop_body w ground_truths record =
     (if \<not> audio_exists w (audio_rel_path record) then Inr (ground_truths, None)
      else
        case (case ground_truths (sample_file record) of
                Some reference \<Rightarrow> Inr (ground_truths, reference)
              | None \<Rightarrow>
                  (case load_ground_truth w (sample_file record) of
                     Inl e \<Rightarrow> Inl e
                   | Inr reference \<Rightarrow>
                       Inr (ground_truths(sample_file record \<mapsto> reference), reference)))
        of
          Inl e \<Rightarrow> Inl e
        | Inr (ground_truths', reference) \<Rightarrow>
            (case transcribe_audio w (audio_rel_path record) of
               Inl e \<Rightarrow> Inr (ground_truths', None)
             | Inr transcription \<Rightarrow>
                 (case calculate_metrics reference transcription of
                    Inl e \<Rightarrow> Inl e
                  | Inr metrics \<Rightarrow>
                      Inr (ground_truths',
                           Some \<lparr>r_id = record_id record,
                                 r_sample = (case md_sample record of None \<Rightarrow> [] | Some s \<Rightarrow> s),
                                 r_sample_file = sample_file record,
                                 r_annotations =
                                   (case md_annotations record of None \<Rightarrow> [] | Some a \<Rightarrow> a),
                                 r_duration_seconds =
                                   (case md_duration_seconds record of None \<Rightarrow> 0 | Some d \<Rightarrow> d),
                                 r_transcription = transcription,
                                 r_reference = reference,
                                 r_metrics = metrics\<rparr>))))"

fun run_loop ::
  "world \<Rightarrow> (string \<rightharpoonup> string) \<Rightarrow> eval_result list \<Rightarrow> metadata list
     \<Rightarrow> error + eval_result list" where
  "run_loop w ground_truths results [] = Inr results"
| "run_loop w ground_truths results (record # records) =
     (case loop_body w ground_truths record of
        Inl e \<Rightarrow> Inl e
      | Inr (ground_truths', None) \<Rightarrow> run_loop w ground_truths' results records
      | Inr (ground_truths', Some result) \<Rightarrow>
          run_loop w ground_truths' (results @ [result]) records)"

definition run_evaluation :: "world \<Rightarrow> error + eval_result list" where
  "run_evaluation w =
     (case load_metadata w of
        Inl e \<Rightarrow> Inl e
      | Inr records \<Rightarrow> run_loop w Map.empty [] records)"

text \<open>
  A record is processed to a result when its audio file exists, its ground truth loads,
  the transcription returns and the metrics are computed.
\<close>

definition record_succeeds :: "world \<Rightarrow> metadata \<Rightarrow> bool" where
  "record_succeeds w record =
     (audio_exists w (audio_rel_path record) \<and>
      (case load_ground_truth w (sample_file record) of
         Inl e \<Rightarrow> False
       | Inr reference \<Rightarrow>
           (case transcribe_audio w (audio_rel_path record) of
              Inl e \<Rightarrow> False
            | Inr transcription \<Rightarrow>
                (case calculate_metrics reference transcription of
                   Inl e \<Rightarrow> False
                 | Inr metrics \<Rightarrow> True))))"

section \<open>Aggregator and reporter\<close>

record group_stats =
  g_count :: nat
  g_avg_wer :: rat

record summary =
  s_timestamp :: string
  s_total_recordings :: nat
  s_avg_wer :: rat
  s_avg_cer :: rat
  s_min_wer :: rat
  s_max_wer :: rat
  s_by_pace :: "(string \<times> group_stats) list"
  s_by_background :: "(string \<times> group_stats) list"

text \<open>
  \<open>pace_groups\<close> and \<open>noise_groups\<close> are dictionaries of lists, kept as association lists
  in insertion order. \<open>group_append\<close> is the body of the grouping loops:
  \<open>if k not in groups: groups[k] = []\<close> followed by \<open>groups[k].append(v)\<close>.
\<close>

fun group_append :: "string \<Rightarrow> rat \<Rightarrow> (string \<times> rat list) list \<Rightarrow> (string \<times> rat list) list" where
  "group_append k v [] = [(k, [v])]"
| "group_append k v ((k', vs) # groups) =
     (if k = k' then (k', vs @ [v]) # groups else (k', vs) # group_append k v groups)"

text \<open>\<open>r["annotations"].get(key, "unknown")\<close>\<close>

definition annotation :: "string \<Rightarrow> eval_result \<Rightarrow> string" where
  "annotation key r = (case map_of (r_annotations r) key of None \<Rightarrow> ''unknown'' | Some v \<Rightarrow> v)"

definition group_by :: "string \<Rightarrow> eval_result list \<Rightarrow> (string \<times> rat list) list" where
  "group_by key results =
     fold (\<lambda>r. group_append (annotation key r) (m_wer (r_metrics r))) results []"

text \<open>\<open>sum(wers) / len(wers)\<close>; the evaluator reaches it on non-empty lists only.\<close>

definition mean :: "rat list \<Rightarrow> rat" where
  "mean wers = sum_list wers / of_nat (length wers)"

definition group_summary :: "(string \<times> rat list) list \<Rightarrow> (string \<times> group_stats) list" where
  "group_summary groups =
     map (\<lambda>(k, wers). (k, \<lparr>g_count = length wers, g_avg_wer = mean wers\<rparr>)) groups"

text \<open>The summary built in lines 181 to 221, for a non-empty result list.\<close>

definition make_summary :: "string \<Rightarrow> eval_result list \<Rightarrow> summary" where
  "make_summary timestamp results =
     (let wers = map (\<lambda>r. m_wer (r_metrics r)) results;
          cers = map (\<lambda>r. m_cer (r_metrics r)) results
      in \<lparr>s_timestamp = timestamp,
          s_total_recordings = length results,
          s_avg_wer = mean wers,
          s_avg_cer = mean cers,
          s_min_wer = Min (set wers),
          s_max_wer = Max (set wers),
          s_by_pace = group_summary (group_by ''pace'' results),
          s_by_background = group_summary (group_by ''background_noise'' results)\<rparr>)"

text \<open>
  What \<open>save_results\<close> does to the outside: the files it writes, with their names and
  contents, and what it prints. \<open>Print_summary\<close> stands for the block of lines 229 to
  243, which formats the fields of the summary. The run timestamp is a parameter, and
  writing a file is taken to succeed.
\<close>

datatype effect =
    Write_results string "eval_result list"
  | Print_results_saved string
  | Write_transcripts string "(string \<times> string \<times> rat) list"
  | Print_transcripts_saved string
  | Write_summary string summary
  | Print_summary_saved string
  | Print_summary summary

definition save_results :: "string \<Rightarrow> eval_result list \<Rightarrow> effect list" where
  "save_results timestamp results =
     (let results_file = ''eval_'' @ timestamp @ ''.json'';
          transcripts_file = ''transcripts_'' @ timestamp @ ''.jsonl''
      in [Write_results results_file results,
          Print_results_saved results_file,
          Write_transcripts transcripts_file
            (map (\<lambda>r. (r_id r, r_transcription r, m_wer (r_metrics r))) results),
          Print_transcripts_saved transcripts_file]
         @ (if results \<noteq> []
            then (let summary = make_summary timestamp results;
                      summary_file = ''summary_'' @ timestamp @ ''.json''
                  in [Write_summary summary_file summary,
                      Print_summary_saved summary_file,
                      Print_summary summary])
            else []))"

section \<open>The script\<close>

text \<open>
  Running \<open>evaluate.py\<close>: the module level reads the credential and raises when it is
  missing or empty (lines 22 to 24); only then does the main block run the evaluation and
  save its results. The outcome is the exception that ends the process, or everything
  \<open>save_results\<close> wrote and printed.
\<close>

definition evaluate :: "world \<Rightarrow> string \<Rightarrow> error + effect list" where
  "evaluate w timestamp =
     (case environ w ''FIREWORKS_API_KEY'' of
        None \<Rightarrow> Inl (ValueError ''FIREWORKS_API_KEY not found in environment'')
      | Some key \<Rightarrow>
          if key = [] then Inl (ValueError ''FIREWORKS_API_KEY not found in environment'')
          else (case run_evaluation w of
                  Inl e \<Rightarrow> Inl e
                | Inr results \<Rightarrow> Inr (save_results timestamp results)))"

section \<open>An example world\<close>

text \<open>
  Concrete inputs on which the theorems below are instantiated. The world has one sample
  file; the audio of \<open>r2\<close> is absent, the service answers 503 for \<open>r4\<close> and 200 for
  every other audio file, and \<open>r5\<close> names a sample file that does not exist.
\<close>

definition example_record :: "string \<Rightarrow> string \<Rightarrow> metadata" where
  "example_record i file =
     \<lparr>md_id = Some i, md_audio = None, md_sample_file = Some file,
      md_sample = Some ''sample 1'', md_annotations = Some [(''pace'', ''fast'')],
      md_duration_seconds = Some 12\<rparr>"

definition example_world :: world where
  "example_world =
     \<lparr>environ = [''FIREWORKS_API_KEY'' \<mapsto> ''secret''],
      metadata_file =
        Some [Json (example_record ''r1'' ''s1.txt''), Blank,
              Json (example_record ''r2'' ''s1.txt''),
              Json (example_record ''r3'' ''s1.txt'')],
      sample_files = [''s1.txt'' \<mapsto> '' A b. ''],
      audio_exists = (\<lambda>p. p \<noteq> ''audio/r2.wav''),
      api = (\<lambda>p. if p = ''audio/r4.wav''
                 then Response \<lparr>status_code = 503, response_text = ''busy'',
                                response_json = Not_json\<rparr>
                 else Response \<lparr>status_code = 200, response_text = ''{text: a c}'',
                                response_json = Json_text ''a c''\<rparr>)\<rparr>"

definition example_result :: "(string \<times> string) list \<Rightarrow> eval_result" where
  "example_result annotations =
     \<lparr>r_id = ''r1'', r_sample = ''sample 1'', r_sample_file = ''s1.txt'',
      r_annotations = annotations, r_duration_seconds = 12,
      r_transcription = ''a c'', r_reference = ''A b.'',
      r_metrics = \<lparr>m_wer = 1 / 2, m_cer = 1 / 3,
                    m_reference_words = 2, m_hypothesis_words = 2\<rparr>\<rparr>"

section \<open>Properties of the string functions\<close>

lemma lower_char_idem: "lower_char (lower_char c) = lower_char c"
  by (simp add: lower_char_def Let_def)

lemma lower_char_space: "lower_char (CHR '' '') = CHR '' ''"
  by (simp add: lower_char_def)

lemma is_space_space: "is_space (CHR '' '')"
  by (simp add: is_space_def)


lemma str_split_space: "is_space c \<Longrightarrow> str_split (c # cs) = str_split cs"
  by simp

lemma str_split_word_start:
  "\<not> is_space c \<Longrightarrow>
   str_split (c # cs) =
     (c # takeWhile (\<lambda>d. \<not> is_space d) cs) # str_split (dropWhile (\<lambda>d. \<not> is_space d) cs)"
  by simp

declare str_split.simps(2) [simp del]

lemma str_split_words:
  "w \<in> set (str_split s) \<Longrightarrow> w \<noteq> [] \<and> (\<forall>c\<in>set w. \<not> is_space c)"
proof (induction s rule: str_split.induct)
  case 1
  then show ?case by simp
next
  case (2 c cs)
  show ?case
  proof (cases "is_space c")
    case True
    then have "w \<in> set (str_split cs)" using "2.prems" by (simp add: str_split_space)
    with True "2.IH"(1) show ?thesis by blast
  next
    case False
    then have "w = c # takeWhile (\<lambda>d. \<not> is_space d) cs
        \<or> w \<in> set (str_split (dropWhile (\<lambda>d. \<not> is_space d) cs))"
      using "2.prems" by (simp add: str_split_word_start)
    then show ?thesis
    proof
      assume "w = c # takeWhile (\<lambda>d. \<not> is_space d) cs"
      with False show ?thesis by (auto dest: set_takeWhileD)
    next
      assume "w \<in> set (str_split (dropWhile (\<lambda>d. \<not> is_space d) cs))"
      with False "2.IH"(2) show ?thesis by blast
    qed
  qed
qed

lemma str_split_chars: "w \<in> set (str_split s) \<Longrightarrow> set w \<subseteq> set s"
proof (induction s rule: str_split.induct)
  case 1
  then show ?case by simp
next
  case (2 c cs)
  show ?case
  proof (cases "is_space c")
    case True
    then have "w \<in> set (str_split cs)" using "2.prems" by (simp add: str_split_space)
    with True "2.IH"(1) show ?thesis by auto
  next
    case False
    then have "w = c # takeWhile (\<lambda>d. \<not> is_space d) cs
        \<or> w \<in> set (str_split (dropWhile (\<lambda>d. \<not> is_space d) cs))"
      using "2.prems" by (simp add: str_split_word_start)
    then show ?thesis
    proof
      assume "w = c # takeWhile (\<lambda>d. \<not> is_space d) cs"
      then show ?thesis by (auto dest: set_takeWhileD)
    next
      assume "w \<in> set (str_split (dropWhile (\<lambda>d. \<not> is_space d) cs))"
      with False "2.IH"(2) have "set w \<subseteq> set (dropWhile (\<lambda>d. \<not> is_space d) cs)" by blast
      then show ?thesis by (auto dest: set_dropWhileD)
    qed
  qed
qed

lemma str_split_word:
  assumes "w \<noteq> []" and "\<forall>c\<in>set w. \<not> is_space c"
  shows "str_split w = [w]"
proof -
  obtain c cs where w: "w = c # cs" using assms(1) by (cases w) auto
  have c: "\<not> is_space c" using assms(2) w by simp
  have tw: "takeWhile (\<lambda>d. \<not> is_space d) cs = cs"
    and dw: "dropWhile (\<lambda>d. \<not> is_space d) cs = []"
    using assms(2) w by auto
  show ?thesis unfolding w by (simp add: str_split_word_start [OF c] tw dw)
qed

lemma str_split_word_sep:
  assumes "w \<noteq> []" and "\<forall>c\<in>set w. \<not> is_space c" and "is_space s"
  shows "str_split (w @ s # rest) = w # str_split rest"
proof -
  obtain c cs where w: "w = c # cs" using assms(1) by (cases w) auto
  have c: "\<not> is_space c" using assms(2) w by simp
  have tw: "takeWhile (\<lambda>d. \<not> is_space d) (cs @ s # rest) = cs"
    and dw: "dropWhile (\<lambda>d. \<not> is_space d) (cs @ s # rest) = s # rest"
    using assms(2,3) w by auto
  show ?thesis unfolding w
    by (simp add: str_split_word_start [OF c] tw dw str_split_space [OF assms(3)])
qed

lemma str_split_join:
  "\<forall>w\<in>set ws. w \<noteq> [] \<and> (\<forall>c\<in>set w. \<not> is_space c) \<Longrightarrow> str_split (str_join ws) = ws"
proof (induction ws rule: str_join.induct)
  case 1
  then show ?case by simp
next
  case (2 w)
  then show ?case by (simp add: str_split_word)
next
  case (3 w v ws)
  then show ?case by (simp add: str_split_word_sep is_space_space)
qed

lemma str_join_chars: "c \<in> set (str_join ws) \<Longrightarrow> c = CHR '' '' \<or> (\<exists>w\<in>set ws. c \<in> set w)"
  by (induction ws rule: str_join.induct) auto

lemma normalize_text_chars:
  assumes "c \<in> set (normalize_text s)"
  shows "c = CHR '' '' \<or> (c \<in> set (re_sub_punct (str_lower s)) \<and> \<not> is_space c)"
  using str_join_chars [OF assms [unfolded normalize_text_def]] str_split_words str_split_chars
  by blast

lemma str_join_Nil: "str_join ws = [] \<Longrightarrow> \<forall>w\<in>set ws. w \<noteq> [] \<Longrightarrow> ws = []"
  by (induction ws rule: str_join.induct) auto

lemma str_split_normalize_text:
  "str_split (normalize_text s) = str_split (re_sub_punct (str_lower s))"
  unfolding normalize_text_def by (rule str_split_join) (use str_split_words in blast)


section \<open>The text normalizer\<close>

text \<open>
  C6. The normalizer is idempotent: for every string \<open>s\<close>, normalizing
  \<open>normalize_text s\<close> again returns it unchanged. After one pass every character is a
  space or a lower-cased character that the substitution kept, and the words are
  separated by single spaces, so each of the three steps of a second pass changes nothing.
\<close>

theorem normalize_text_idempotent: "normalize_text (normalize_text s) = normalize_text s"
proof -
  let ?t = "normalize_text s"
  have low: "str_lower ?t = ?t"
  proof -
    have "lower_char c = c" if "c \<in> set ?t" for c
    proof -
      from normalize_text_chars [OF that]
      have "c = CHR '' '' \<or> (\<exists>x. c = lower_char x)"
        by (auto simp: re_sub_punct_def str_lower_def)
      then show ?thesis by (auto simp: lower_char_space lower_char_idem)
    qed
    then show ?thesis by (simp add: str_lower_def map_idI)
  qed
  have keep: "re_sub_punct ?t = ?t"
  proof -
    have "is_word c \<or> is_space c \<or> c = CHR 0x27" if "c \<in> set ?t" for c
      using normalize_text_chars [OF that] by (auto simp: is_space_space re_sub_punct_def)
    then show ?thesis by (simp add: re_sub_punct_def)
  qed
  have "str_split ?t = str_split (re_sub_punct (str_lower s))"
    by (rule str_split_normalize_text)
  then show ?thesis
    using low keep by (simp add: normalize_text_def)
qed

text \<open>
  C1. The normalizer is claimed to return its input lower-cased, with punctuation
  removed except for apostrophes inside word-internal contractions, and with whitespace
  collapsed. The substitution of the code keeps every apostrophe, wherever it stands: on
  a quoted word the quotation marks survive, where the normalizer as the specification
  (and the comment above the substitution) words it removes them.
\<close>

theorem normalize_text_keeps_quotation_marks:
  "normalize_text ''Say 'Hello' now.'' = ''say 'hello' now''
   \<and> spec_normalize_text ''Say 'Hello' now.'' = ''say hello now''
   \<and> spec_normalize_text ''Don't  stop!'' = normalize_text ''Don't  stop!''"
  by code_simp

section \<open>The metric engine\<close>

lemma edit_distance_refl: "edit_distance xs xs = 0"
  by (induction xs) simp_all

lemma edit_distance_zero: "edit_distance xs ys = 0 \<Longrightarrow> xs = ys"
  by (induction xs ys rule: edit_distance.induct) (auto split: if_splits)

lemma edit_distance_substitution_le:
  "edit_distance (pre @ x # post) (pre @ y # post) \<le> 1"
proof (induction pre)
  case Nil
  have "edit_distance (x # post) (y # post) \<le> edit_distance post post + (if x = y then 0 else 1)"
    by simp
  then show ?case by (simp add: edit_distance_refl split: if_splits)
next
  case (Cons a pre)
  have "edit_distance (a # pre @ x # post) (a # pre @ y # post)
          \<le> edit_distance (pre @ x # post) (pre @ y # post)"
    by simp
  with Cons show ?case by simp
qed

lemma edit_distance_substitution:
  assumes "x \<noteq> y"
  shows "edit_distance (pre @ x # post) (pre @ y # post) = 1"
proof -
  have "edit_distance (pre @ x # post) (pre @ y # post) \<noteq> 0"
    using assms edit_distance_zero by fastforce
  with edit_distance_substitution_le [of pre x post y] show ?thesis by linarith
qed

lemma calculate_metrics_Inr:
  assumes "str_split (normalize_text reference) \<noteq> []"
  shows "calculate_metrics reference hypothesis =
    Inr \<lparr>m_wer = of_nat (edit_distance (str_split (normalize_text reference))
                                         (str_split (normalize_text hypothesis)))
                   / of_nat (length (str_split (normalize_text reference))),
         m_cer = of_nat (edit_distance (normalize_text reference) (normalize_text hypothesis))
                   / of_nat (length (normalize_text reference)),
         m_reference_words = length (str_split (normalize_text reference)),
         m_hypothesis_words = length (str_split (normalize_text hypothesis))\<rparr>"
proof -
  have "normalize_text reference \<noteq> []" using assms by auto
  with assms show ?thesis
    by (simp add: calculate_metrics_def wer_def cer_def error_rate_def Let_def)
qed

text \<open>
  C2, as amended. The tokens that count are those of the normalized texts: when the
  normalized reference has the \<open>N\<close> tokens \<open>pre @ x # post\<close> and the normalized
  hypothesis has the same tokens but for \<open>y\<close> in the place of \<open>x\<close>, with \<open>y\<close> different
  from \<open>x\<close>, then \<open>calculate_metrics\<close> returns the word error rate \<open>1 / N\<close>.
\<close>

theorem wer_one_substitution:
  assumes "str_split (normalize_text reference) = pre @ x # post"
    and "str_split (normalize_text hypothesis) = pre @ y # post"
    and "x \<noteq> y"
  shows "\<exists>m. calculate_metrics reference hypothesis = Inr m
            \<and> m_wer m = 1 / of_nat (Suc (length pre + length post))"
proof -
  have "str_split (normalize_text reference) \<noteq> []" using assms(1) by simp
  from calculate_metrics_Inr [OF this, of hypothesis] show ?thesis
    by (simp add: assms(1,2) edit_distance_substitution [OF assms(3)])
qed

text \<open>The scenario of the specification: "the quick brown fox" against
  "the quick red fox" is one substitution in four tokens, a word error rate of 1/4.\<close>

theorem wer_one_substitution_witness:
  "\<exists>m. calculate_metrics ''the quick brown fox'' ''the quick red fox'' = Inr m \<and> m_wer m = 1 / 4"
proof -
  have r: "str_split (normalize_text ''the quick brown fox'')
             = [''the'', ''quick''] @ ''brown'' # [''fox'']"
    by code_simp
  have h: "str_split (normalize_text ''the quick red fox'')
             = [''the'', ''quick''] @ ''red'' # [''fox'']"
    by code_simp
  have d: "''brown'' \<noteq> ''red''" by simp
  from wer_one_substitution [OF r h d] show ?thesis by simp
qed

text \<open>
  On the raw strings the claim fails: the reference "Dog" is one whitespace token, the
  hypothesis "dog" replaces that token by a different one, and the word error rate is 0
  and not 1, because both normalize to the same text.
\<close>

theorem wer_raw_substitution_counterexample:
  "str_split ''Dog'' = [''Dog''] \<and> str_split ''dog'' = [''dog''] \<and> ''Dog'' \<noteq> ''dog''
   \<and> calculate_metrics ''Dog'' ''dog''
       = Inr \<lparr>m_wer = 0, m_cer = 0, m_reference_words = 1, m_hypothesis_words = 1\<rparr>"
  by code_simp




section \<open>The batch runner\<close>

text \<open>The cache only ever holds what \<open>load_ground_truth\<close> returned, and an iteration on
  a record that succeeds appends the result of that record.\<close>

lemma loop_body_missing_audio:
  "\<not> audio_exists w (audio_rel_path record) \<Longrightarrow> loop_body w gt record = Inr (gt, None)"
  by (simp add: loop_body_def)

lemma loop_body_succeeds:
  assumes "record_succeeds w record"
    and "\<forall>f r. gt f = Some r \<longrightarrow> load_ground_truth w f = Inr r"
  shows "\<exists>gt' result. loop_body w gt record = Inr (gt', Some result)
           \<and> r_id result = record_id record
           \<and> (\<forall>f r. gt' f = Some r \<longrightarrow> load_ground_truth w f = Inr r)"
proof -
  from assms(1) obtain reference transcription metrics where
    a: "audio_exists w (audio_rel_path record)" and
    l: "load_ground_truth w (sample_file record) = Inr reference" and
    t: "transcribe_audio w (audio_rel_path record) = Inr transcription" and
    m: "calculate_metrics reference transcription = Inr metrics"
    by (auto simp: record_succeeds_def split: sum.splits)
  show ?thesis
  proof (cases "gt (sample_file record)")
    case None
    with a l t m assms(2) show ?thesis by (simp add: loop_body_def)
  next
    case (Some r)
    with assms(2) l have "r = reference" by auto
    with Some a l t m assms(2) show ?thesis by (simp add: loop_body_def)
  qed
qed

lemma run_loop_ids:
  assumes "\<forall>f r. gt f = Some r \<longrightarrow> load_ground_truth w f = Inr r"
    and "\<forall>record\<in>set records.
           audio_exists w (audio_rel_path record) \<longrightarrow> record_succeeds w record"
  shows "\<exists>out. run_loop w gt results records = Inr out
           \<and> map r_id out
               = map r_id results
                 @ map record_id (filter (\<lambda>r. audio_exists w (audio_rel_path r)) records)"
  using assms
proof (induction records arbitrary: gt results)
  case Nil
  then show ?case by simp
next
  case (Cons rec recs)
  show ?case
  proof (cases "audio_exists w (audio_rel_path rec)")
    case False
    from Cons.IH [OF Cons.prems(1), of results] Cons.prems(2) False show ?thesis
      by (simp add: loop_body_missing_audio)
  next
    case True
    with Cons.prems(2) have "record_succeeds w rec" by simp
    from loop_body_succeeds [OF this Cons.prems(1)] obtain gt' result where
      b: "loop_body w gt rec = Inr (gt', Some result)" and
      i: "r_id result = record_id rec" and
      c: "\<forall>f r. gt' f = Some r \<longrightarrow> load_ground_truth w f = Inr r"
      by blast
    from Cons.IH [OF c, of "results @ [result]"] Cons.prems(2) True b i show ?thesis
      by simp
  qed
qed

text \<open>
  C3. When the metadata file holds the records \<open>pre @ record # post\<close>, the audio file of
  \<open>record\<close> does not exist and every other record is processed to a result, then
  \<open>run_evaluation\<close> returns normally (no exception leaves the loop), its result list is
  one shorter than the list of records, and the results are those of the other records,
  in the order of the metadata file.
\<close>

theorem missing_audio_skipped:
  assumes "load_metadata w = Inr (pre @ record # post)"
    and "\<not> audio_exists w (audio_rel_path record)"
    and "\<forall>r\<in>set pre \<union> set post. record_succeeds w r"
  shows "\<exists>results. run_evaluation w = Inr results
           \<and> length results = length (pre @ record # post) - 1
           \<and> map r_id results = map record_id (pre @ post)"
proof -
  have s: "\<forall>r\<in>set pre \<union> set post. audio_exists w (audio_rel_path r)"
    using assms(3) by (simp add: record_succeeds_def)
  have f: "filter (\<lambda>r. audio_exists w (audio_rel_path r)) (pre @ record # post) = pre @ post"
    using s assms(2) by (simp add: filter_id_conv)
  have "\<forall>r\<in>set (pre @ record # post).
          audio_exists w (audio_rel_path r) \<longrightarrow> record_succeeds w r"
    using assms(2,3) by auto
  from run_loop_ids [of Map.empty w, OF _ this, of "[]"] obtain out where
    o: "run_loop w Map.empty [] (pre @ record # post) = Inr out" and
    i: "map r_id out = map record_id (pre @ post)"
    unfolding f by auto
  from i have "length out = length (pre @ post)" by (metis length_map)
  with o i show ?thesis by (simp add: run_evaluation_def assms(1))
qed

text \<open>In the example world the audio of \<open>r2\<close> is absent: two results for three records.\<close>

theorem missing_audio_skipped_witness:
  "\<exists>results. run_evaluation example_world = Inr results
      \<and> length results = 2 \<and> map r_id results = [''r1'', ''r3'']"
proof -
  have m: "load_metadata example_world
             = Inr ([example_record ''r1'' ''s1.txt''] @ example_record ''r2'' ''s1.txt''
                      # [example_record ''r3'' ''s1.txt''])"
    by code_simp
  have a: "\<not> audio_exists example_world (audio_rel_path (example_record ''r2'' ''s1.txt''))"
    by code_simp
  have s: "\<forall>r\<in>set [example_record ''r1'' ''s1.txt''] \<union> set [example_record ''r3'' ''s1.txt''].
             record_succeeds example_world r"
    by code_simp
  from missing_audio_skipped [OF m a s] show ?thesis
    by (simp add: record_id_def example_record_def numeral_2_eq_2)
qed



text \<open>
  C10. For a record whose audio file exists and whose sample file is neither cached nor
  readable, \<open>load_ground_truth\<close> raises; the call stands outside the \<open>try\<close>, so the
  exception leaves the loop body and the loop: whatever records follow, and whatever
  results were collected, the run ends with that exception.
\<close>

theorem missing_sample_file_escapes:
  assumes "audio_exists w (audio_rel_path record)"
    and "ground_truths (sample_file record) = None"
    and "sample_files w (sample_file record) = None"
  shows "load_ground_truth w (sample_file record) = Inl (OSError (sample_file record))
         \<and> loop_body w ground_truths record = Inl (OSError (sample_file record))
         \<and> run_loop w ground_truths results (record # rest) = Inl (OSError (sample_file record))"
  using assms by (simp add: loop_body_def load_ground_truth_def)

text \<open>In the example world \<open>r5\<close> names the absent sample file \<open>s9.txt\<close>; the record
  \<open>r1\<close> behind it is never reached.\<close>

theorem missing_sample_file_escapes_witness:
  "run_loop example_world Map.empty []
     [example_record ''r5'' ''s9.txt'', example_record ''r1'' ''s1.txt'']
   = Inl (OSError ''s9.txt'')"
proof -
  have f: "sample_file (example_record ''r5'' ''s9.txt'') = ''s9.txt''" by code_simp
  have a: "audio_exists example_world (audio_rel_path (example_record ''r5'' ''s9.txt''))"
    by code_simp
  have c: "(Map.empty :: string \<rightharpoonup> string) (sample_file (example_record ''r5'' ''s9.txt'')) = None"
    by simp
  have s: "sample_files example_world (sample_file (example_record ''r5'' ''s9.txt'')) = None"
    by code_simp
  from missing_sample_file_escapes [OF a c s, of "[]" "[example_record ''r1'' ''s1.txt'']"]
  show ?thesis by (simp add: f)
qed

section \<open>The script\<close>

text \<open>
  C9. When \<open>FIREWORKS_API_KEY\<close> is absent from the environment, the script ends with
  the \<open>ValueError\<close> of line 24, whatever the metadata, the files and the service are: no
  record is processed, and nothing is written or printed by \<open>save_results\<close>.
\<close>

theorem missing_credential_fatal:
  assumes "environ w ''FIREWORKS_API_KEY'' = None"
  shows "evaluate w timestamp = Inl (ValueError ''FIREWORKS_API_KEY not found in environment'')"
  using assms by (simp add: evaluate_def)

text \<open>The example world without its environment variables.\<close>

theorem missing_credential_fatal_witness:
  "evaluate (example_world\<lparr>environ := Map.empty\<rparr>) ''20250101_120000''
     = Inl (ValueError ''FIREWORKS_API_KEY not found in environment'')"
proof -
  have "environ (example_world\<lparr>environ := Map.empty\<rparr>) ''FIREWORKS_API_KEY'' = None"
    by simp
  from missing_credential_fatal [OF this] show ?thesis .
qed

section \<open>The aggregator and reporter\<close>

text \<open>
  C5, as amended. For every non-empty result list, \<open>save_results\<close> writes the summary
  file and prints the summary; how many records were skipped plays no part, since only
  the results reach \<open>save_results\<close>.
\<close>

theorem summary_written_when_results:
  assumes "results \<noteq> []"
  shows "Write_summary (''summary_'' @ timestamp @ ''.json'') (make_summary timestamp results)
           \<in> set (save_results timestamp results)
         \<and> Print_summary (make_summary timestamp results) \<in> set (save_results timestamp results)"
  using assms by (simp add: save_results_def Let_def)

text \<open>A run with a single result.\<close>

theorem summary_written_when_results_witness:
  "Write_summary ''summary_T.json'' (make_summary ''T'' [example_result []])
     \<in> set (save_results ''T'' [example_result []])
   \<and> Print_summary (make_summary ''T'' [example_result []])
     \<in> set (save_results ''T'' [example_result []])"
proof -
  have "[example_result []] \<noteq> []" by simp
  from summary_written_when_results [OF this, of "''T''"] show ?thesis by simp
qed

text \<open>
  For the empty result list the guard of line 180 skips the summary: \<open>save_results\<close>
  writes the detailed results and the transcripts and nothing else. So does the whole
  script on a metadata file whose only record has no audio file.
\<close>

theorem no_summary_for_empty_results_counterexample:
  "save_results ''T'' []
     = [Write_results ''eval_T.json'' [], Print_results_saved ''eval_T.json'',
        Write_transcripts ''transcripts_T.jsonl'' [],
        Print_transcripts_saved ''transcripts_T.jsonl'']
   \<and> evaluate (example_world\<lparr>metadata_file := Some [Json (example_record ''r2'' ''s1.txt'')]\<rparr>) ''T''
     = Inr [Write_results ''eval_T.json'' [], Print_results_saved ''eval_T.json'',
            Write_transcripts ''transcripts_T.jsonl'' [],
            Print_transcripts_saved ''transcripts_T.jsonl'']"
  by code_simp

text \<open>Grouping keeps every value: each call of \<open>group_append\<close> adds one value to one
  group, and the key it was called with is a key afterwards.\<close>

lemma group_append_lengths:
  "sum_list (map (\<lambda>g. length (snd g)) (group_append k v groups))
     = Suc (sum_list (map (\<lambda>g. length (snd g)) groups))"
  by (induction k v groups rule: group_append.induct) auto

lemma group_append_keys: "fst ` set (group_append k v groups) = insert k (fst ` set groups)"
  by (induction k v groups rule: group_append.induct) auto

lemma fold_group_append_lengths:
  "sum_list (map (\<lambda>g. length (snd g)) (fold (\<lambda>r. group_append (key r) (val r)) results groups))
     = sum_list (map (\<lambda>g. length (snd g)) groups) + length results"
  by (induction results arbitrary: groups) (simp_all add: group_append_lengths)

lemma fold_group_append_keys:
  "fst ` set (fold (\<lambda>r. group_append (key r) (val r)) results groups)
     = fst ` set groups \<union> key ` set results"
  by (induction results arbitrary: groups) (auto simp: group_append_keys)

lemma group_summary_counts:
  "sum_list (map (\<lambda>g. g_count (snd g)) (group_summary (group_by key results))) = length results"
proof -
  have "map (\<lambda>g. g_count (snd g)) (group_summary groups) = map (\<lambda>g. length (snd g)) groups"
    for groups
    by (simp add: group_summary_def case_prod_unfold)
  then show ?thesis
    using fold_group_append_lengths [of "annotation key" _ results "[]"]
    by (simp add: group_by_def)
qed

lemma group_summary_keys:
  "fst ` set (group_summary (group_by key results)) = annotation key ` set results"
proof -
  have "fst ` set (group_summary groups) = fst ` set groups" for groups
    by (force simp: group_summary_def case_prod_unfold)
  then show ?thesis
    using fold_group_append_keys [of "annotation key" _ results "[]"]
    by (simp add: group_by_def)
qed

text \<open>
  C8. For every result list, the \<open>count\<close> fields of the pace groups of the summary sum
  to the number of results, and so do those of the background-noise groups; a result
  without the annotation is counted in the group \<open>unknown\<close>, which is then a key of the
  summary.
\<close>

theorem group_counts_sum_to_total:
  "sum_list (map (\<lambda>g. g_count (snd g)) (s_by_pace (make_summary timestamp results)))
     = length results
   \<and> sum_list (map (\<lambda>g. g_count (snd g)) (s_by_background (make_summary timestamp results)))
     = length results
   \<and> (\<forall>r\<in>set results.
        (map_of (r_annotations r) ''pace'' = None
           \<longrightarrow> ''unknown'' \<in> fst ` set (s_by_pace (make_summary timestamp results)))
        \<and> (map_of (r_annotations r) ''background_noise'' = None
           \<longrightarrow> ''unknown'' \<in> fst ` set (s_by_background (make_summary timestamp results))))"
proof -
  have u: "''unknown'' \<in> annotation key ` set results"
    if "r \<in> set results" "map_of (r_annotations r) key = None" for r key
  proof -
    have "annotation key r = ''unknown''" using that(2) by (simp add: annotation_def)
    with that(1) show ?thesis by force
  qed
  show ?thesis
    by (simp add: make_summary_def Let_def group_summary_counts group_summary_keys u)
qed

text \<open>Two results, one of them without annotations.\<close>

theorem group_counts_sum_to_total_witness:
  "sum_list (map (\<lambda>g. g_count (snd g))
      (s_by_pace (make_summary ''T'' [example_result [(''pace'', ''fast'')], example_result []])))
     = 2
   \<and> ''unknown'' \<in> fst ` set
       (s_by_pace (make_summary ''T'' [example_result [(''pace'', ''fast'')], example_result []]))"
proof -
  have m: "example_result [] \<in> set [example_result [(''pace'', ''fast'')], example_result []]"
    by simp
  have n: "map_of (r_annotations (example_result [])) ''pace'' = None"
    by (simp add: example_result_def)
  from group_counts_sum_to_total
    [of "''T''" "[example_result [(''pace'', ''fast'')], example_result []]"] m n
  show ?thesis by auto
qed

end
